theory Spec2Isabelle
  imports Main "HOL-Library.Word" "HOL-Library.List_Lexorder" "HOL-Library.Multiset"
begin

section \<open>Strings, bytes and the host platform\<close>

text \<open>
  A JavaScript string is a sequence of UTF-16 code units, and a file is a sequence of
  bytes. \<open>str\<close> embeds an ASCII literal as a JavaScript string.
\<close>

type_synonym jschar = "16 word"
type_synonym jsstring = "jschar list"
type_synonym byte = "8 word"

definition str :: "string \<Rightarrow> jsstring" where
  "str s = map of_char s"

text \<open>
  \<open>path.basename\<close> and \<open>path.extname\<close> (POSIX). \<open>basename\<close> is the last component
  of a path, trailing separators dropped. \<open>extname\<close> is applied to a directory entry's
  name, which holds no separator: it is the part from the last dot on, and empty when
  there is no dot, when the last dot is the first character, or when the name is \<open>..\<close>.
\<close>

definition slash :: jschar where
  "slash = 0x2F"

definition dot :: jschar where
  "dot = 0x2E"

definition basename :: "jsstring \<Rightarrow> jsstring" where
  "basename p = rev (takeWhile (\<lambda>c. c \<noteq> slash) (dropWhile (\<lambda>c. c = slash) (rev p)))"

definition extname :: "jsstring \<Rightarrow> jsstring" where
  "extname name =
     (let afterDot = rev (takeWhile (\<lambda>c. c \<noteq> dot) (rev name));
          beforeDot = rev (drop 1 (dropWhile (\<lambda>c. c \<noteq> dot) (rev name)))
      in if dot \<notin> set name then []
         else if beforeDot = [] then []
         else if beforeDot = [dot] \<and> afterDot = [] then []
         else dot # afterDot)"

text \<open>
  The host, that is, what the platform gives and the program does not define:
  \<open>process.argv[1]\<close> (the path of the running script), the arguments after it
  (\<open>process.argv.slice(2)\<close>), \<open>process.cwd()\<close>, the decoder behind
  \<open>fs.readFileSync(path, {encoding})\<close> for the encodings it accepts, the message of
  the error it throws for an encoding name it does not know,
  \<open>String.prototype.toLowerCase\<close> (the case mapping of Unicode) and
  \<open>String.prototype.localeCompare\<close> (the collation of the host's locale, which returns
  a negative number, zero or a positive number).
\<close>

datatype encoding = Utf8 | Utf16le | Utf32le

record host =
  scriptPath :: jsstring
  args :: "jsstring list"
  cwd :: jsstring
  decode :: "encoding \<Rightarrow> byte list \<Rightarrow> jsstring"
  encodingError :: jsstring
  toLowerCase :: "jsstring \<Rightarrow> jsstring"
  localeCompare :: "jsstring \<Rightarrow> jsstring \<Rightarrow> int"

section \<open>The file system\<close>

text \<open>
  A file has its bytes and, for each of the three reads the program makes of it, the
  error the read throws, if any: the whole-file binary read of \<open>isTextFile\<close>, the
  four-byte probe of \<open>getFileEncoding\<close>, and the decoding read of \<open>walkDir\<close>.
\<close>

record filedata =
  bytes :: "byte list"
  sniff_err :: "jsstring option"
  probe_err :: "jsstring option"
  read_err :: "jsstring option"

text \<open>
  A directory entry is a directory with its listing in \<open>readdirSync\<close> order
  (\<open>Dir\<close>), a directory whose \<open>readdirSync\<close> throws (\<open>Denied\<close>, with the message), a
  regular file (\<open>File\<close>, the only entries with \<open>isFile()\<close>), or an entry that is
  neither (\<open>Special\<close>: a symbolic link, FIFO, socket or device, with what reading
  through it gives).
\<close>

datatype node =
    Dir "(jsstring \<times> node) list"
  | Denied jsstring
  | File filedata
  | Special filedata

fun isDirectory :: "node \<Rightarrow> bool" where
  "isDirectory (Dir _) = True"
| "isDirectory (Denied _) = True"
| "isDirectory _ = False"

fun isFile :: "node \<Rightarrow> bool" where
  "isFile (File _) = True"
| "isFile _ = False"

section \<open>Configuration\<close>

definition EXCLUDED_DIRS :: "jsstring set" where
  "EXCLUDED_DIRS = set (map str
     [''node_modules'', ''venv'', ''.git'', ''__pycache__'', ''build'', ''dist''])"

definition EXCLUDED_FILES :: "jsstring set" where
  "EXCLUDED_FILES = set (map str
     [''package-lock.json'', ''yarn.lock'', ''project-context.txt''])"

definition TEXT_EXTENSIONS :: "jsstring set" where
  "TEXT_EXTENSIONS = set (map str
     [''.txt'', ''.md'', ''.py'', ''.js'', ''.ts'', ''.jsx'', ''.tsx'', ''.cpp'', ''.h'',
      ''.hpp'', ''.c'', ''.cs'', ''.java'', ''.html'', ''.css'', ''.scss'', ''.sass'',
      ''.json'', ''.yml'', ''.yaml'', ''.xml'', ''.env'', ''.config'', ''.dockerfile'',
      ''.sh'', ''.bat'', ''.ps1''])"

definition EXCLUDED_EXTENSIONS :: "jsstring set" where
  "EXCLUDED_EXTENSIONS = set (map str
     [''.svg'', ''.png'', ''.jpg'', ''.jpeg'', ''.gif'', ''.ico'', ''.pdf'', ''.zip'',
      ''.tar'', ''.gz'', ''.rar'', ''.exe'', ''.dll'', ''.pdb'', ''.pyc''])"

section \<open>The filter engine\<close>

definition getScriptName :: "host \<Rightarrow> jsstring" where
  "getScriptName h = basename (scriptPath h)"

text \<open>
  \<open>isTextFile\<close>: the file read as binary (one character per byte), its first 1024
  characters searched for the character 0; any error of the read gives false.
\<close>

definition isTextFile :: "filedata \<Rightarrow> bool" where
  "isTextFile f =
     (case sniff_err f of
        Some _ \<Rightarrow> False
      | None \<Rightarrow> (let buffer = take 1024 (bytes f) in 0 \<notin> set buffer))"

text \<open>
  \<open>getFileEncoding\<close>: a zero-filled buffer of four bytes receives the first bytes of
  the file (a shorter file leaves the zeros), and the marker tests run in the order of
  the source; any error of the probe gives \<open>utf8\<close>.
\<close>

definition getFileEncoding :: "filedata \<Rightarrow> encoding" where
  "getFileEncoding f =
     (case probe_err f of
        Some _ \<Rightarrow> Utf8
      | None \<Rightarrow>
          (let buffer = take 4 (bytes f @ replicate 4 0) in
           if buffer ! 0 = 0xEF \<and> buffer ! 1 = 0xBB \<and> buffer ! 2 = 0xBF then Utf8
           else if buffer ! 0 = 0xFF \<and> buffer ! 1 = 0xFE \<or> buffer ! 0 = 0xFE \<and> buffer ! 1 = 0xFF
             then Utf16le
           else if (buffer ! 0 = 0xFF \<and> buffer ! 1 = 0xFE \<and> buffer ! 2 = 0x00 \<and> buffer ! 3 = 0x00) \<or>
                   (buffer ! 0 = 0x00 \<and> buffer ! 1 = 0x00 \<and> buffer ! 2 = 0xFE \<and> buffer ! 3 = 0xFF)
             then Utf32le
           else Utf8))"

text \<open>
  The character classes of the two regular expressions of \<open>estimateTokens\<close>: \<open>\s\<close> is
  the white space and the line terminators of ECMAScript, \<open>[a-zA-Z0-9\s]\<close> adds the
  ASCII letters and digits.
\<close>

definition is_space :: "jschar \<Rightarrow> bool" where
  "is_space c =
     (c = 0x09 \<or> c = 0x0A \<or> c = 0x0B \<or> c = 0x0C \<or> c = 0x0D \<or> c = 0x20 \<or> c = 0xA0 \<or>
      c = 0x1680 \<or> (0x2000 \<le> c \<and> c \<le> 0x200A) \<or> c = 0x2028 \<or> c = 0x2029 \<or>
      c = 0x202F \<or> c = 0x205F \<or> c = 0x3000 \<or> c = 0xFEFF)"

definition is_alnum_or_space :: "jschar \<Rightarrow> bool" where
  "is_alnum_or_space c =
     ((0x61 \<le> c \<and> c \<le> 0x7A) \<or> (0x41 \<le> c \<and> c \<le> 0x5A) \<or> (0x30 \<le> c \<and> c \<le> 0x39) \<or>
      is_space c)"

text \<open>
  \<open>text.split(/\s+/)\<close>: the text is cut at every maximal run of white space; the piece
  before the first run and the piece after the last one are kept when empty, and the
  empty text gives one empty piece. \<open>split_from seg cs\<close> has read \<open>seg\<close> since the
  last run.
\<close>

function split_from :: "jsstring \<Rightarrow> jsstring \<Rightarrow> jsstring list" where
  "split_from seg [] = [seg]"
| "split_from seg (c # cs) =
     (if is_space c then seg # split_from [] (dropWhile is_space cs)
      else split_from (seg @ [c]) cs)"
  by pat_completeness auto
termination
proof (relation "measure (\<lambda>(seg, cs). length cs)")
  fix seg :: jsstring and c :: jschar and cs :: jsstring
  have "length (dropWhile is_space cs) \<le> length cs"
    by (rule length_dropWhile_le)
  then show "((([] :: jsstring), dropWhile is_space cs), (seg, c # cs)) \<in> measure (\<lambda>(seg, cs). length cs)"
    by simp
qed simp_all

definition split_ws :: "jsstring \<Rightarrow> jsstring list" where
  "split_ws text = split_from [] text"

definition estimateTokens :: "jsstring \<Rightarrow> nat" where
  "estimateTokens text =
     (let words = length (split_ws text);
          specialChars = length (filter (\<lambda>c. \<not> is_alnum_or_space c) text)
      in words + specialChars + words div 4)"

text \<open>
  \<open>shouldProcessFile\<close>, on an entry's name (the base name of its path) and its data.
\<close>

definition shouldProcessFile :: "host \<Rightarrow> jsstring \<Rightarrow> filedata \<Rightarrow> bool" where
  "shouldProcessFile h fileName f =
     (let extension = toLowerCase h (extname fileName) in
      if fileName = getScriptName h then False
      else if fileName \<in> EXCLUDED_FILES then False
      else if extension \<in> EXCLUDED_EXTENSIONS then False
      else if \<not> (extension \<in> TEXT_EXTENSIONS \<or> extension = []) then False
      else isTextFile f)"

section \<open>Sorting\<close>

text \<open>
  \<open>Array.prototype.sort(cmp)\<close> is a stable sort; \<open>sort_cmp\<close> is the stable insertion
  sort, which gives the same array for every consistent comparator (one whose signs
  define a total preorder).
\<close>

fun insert_cmp :: "('a \<Rightarrow> 'a \<Rightarrow> int) \<Rightarrow> 'a \<Rightarrow> 'a list \<Rightarrow> 'a list" where
  "insert_cmp cmp x [] = [x]"
| "insert_cmp cmp x (y # ys) = (if cmp x y \<le> 0 then x # y # ys else y # insert_cmp cmp x ys)"

fun sort_cmp :: "('a \<Rightarrow> 'a \<Rightarrow> int) \<Rightarrow> 'a list \<Rightarrow> 'a list" where
  "sort_cmp cmp [] = []"
| "sort_cmp cmp (x # xs) = insert_cmp cmp x (sort_cmp cmp xs)"

text \<open>The comparator of the tree pass, on entries (name and node).\<close>

definition compareItems :: "host \<Rightarrow> jsstring \<times> node \<Rightarrow> jsstring \<times> node \<Rightarrow> int" where
  "compareItems h a b =
     (if isDirectory (snd a) \<and> \<not> isDirectory (snd b) then - 1
      else if \<not> isDirectory (snd a) \<and> isDirectory (snd b) then 1
      else localeCompare h (toLowerCase h (fst a)) (toLowerCase h (fst b)))"

text \<open>The comparator of the content pass, on the names of the files.\<close>

definition compareFiles :: "host \<Rightarrow> jsstring \<times> node \<Rightarrow> jsstring \<times> node \<Rightarrow> int" where
  "compareFiles h a b = localeCompare h (toLowerCase h (fst a)) (toLowerCase h (fst b))"

section \<open>The tree pass\<close>

text \<open>
  What the reads of an entry give: a file's own data; for a directory every read throws.
\<close>

definition EISDIR :: jsstring where
  "EISDIR = str ''EISDIR: illegal operation on a directory, read''"

definition ENOTDIR :: jsstring where
  "ENOTDIR = str ''ENOTDIR: not a directory, scandir''"

fun fileData :: "node \<Rightarrow> filedata" where
  "fileData (File f) = f"
| "fileData (Special f) = f"
| "fileData _ =
     \<lparr>bytes = [], sniff_err = Some EISDIR, probe_err = Some EISDIR, read_err = Some EISDIR\<rparr>"

text \<open>The branch glyphs: U+2514 U+2500 space, U+251C U+2500 space, U+2502 and two spaces.\<close>

definition lastBranch :: jsstring where
  "lastBranch = [0x2514, 0x2500, 0x20]"

definition midBranch :: jsstring where
  "midBranch = [0x251C, 0x2500, 0x20]"

definition bar :: jsstring where
  "bar = [0x2502, 0x20, 0x20]"

lemma size_list_filter_le: "size_list f (filter P xs) \<le> size_list f xs"
  by (induction xs) auto

lemma size_list_insert_cmp: "size_list f (insert_cmp cmp x xs) = Suc (f x + size_list f xs)"
  by (induction xs) auto

lemma size_list_sort_cmp: "size_list f (sort_cmp cmp xs) = size_list f xs"
  by (induction xs) (auto simp: size_list_insert_cmp)

text \<open>
  \<open>generateTree\<close> on the base name of \<open>startPath\<close> and the node there, with the
  text written to \<open>outputFile\<close> so far; \<open>treeItems\<close> is its loop over the sorted
  items, on the items from index \<open>i\<close> on (\<open>isLast\<close>: none follows).
\<close>

function generateTree :: "host \<Rightarrow> jsstring \<Rightarrow> node \<Rightarrow> jsstring \<Rightarrow> jsstring \<Rightarrow> jsstring"
  and treeItems :: "host \<Rightarrow> (jsstring \<times> node) list \<Rightarrow> jsstring \<Rightarrow> jsstring \<Rightarrow> jsstring"
where
  "generateTree h baseName (Dir entries) prefix out =
     (if baseName \<in> EXCLUDED_DIRS then out
      else treeItems h (sort_cmp (compareItems h) entries) prefix
             (out @ prefix @ baseName @ str ''/\<newline>''))"
| "generateTree h baseName (Denied msg) prefix out =
     (if baseName \<in> EXCLUDED_DIRS then out
      else out @ prefix @ baseName @ str ''/\<newline>'' @ prefix @ str ''[ACCESS DENIED]\<newline>'')"
| "generateTree h baseName (File f) prefix out =
     (if baseName \<in> EXCLUDED_DIRS then out
      else out @ prefix @ baseName @ str ''/\<newline>'' @ prefix @ str ''[ACCESS DENIED]\<newline>'')"
| "generateTree h baseName (Special f) prefix out =
     (if baseName \<in> EXCLUDED_DIRS then out
      else out @ prefix @ baseName @ str ''/\<newline>'' @ prefix @ str ''[ACCESS DENIED]\<newline>'')"
| "treeItems h [] prefix out = out"
| "treeItems h (item # rest) prefix out =
     (let isLast = (rest = []);
          currentPrefix = prefix @ (if isLast then lastBranch else midBranch);
          nextPrefix = prefix @ (if isLast then str ''   '' else bar)
      in treeItems h rest prefix
           (if isDirectory (snd item)
            then (if fst item \<notin> EXCLUDED_DIRS
                  then generateTree h (fst item) (snd item) nextPrefix out
                  else out)
            else (if shouldProcessFile h (fst item) (fileData (snd item))
                  then out @ currentPrefix @ fst item @ str ''\<newline>''
                  else out)))"
  by pat_completeness auto
termination
proof (relation "measure (\<lambda>x. case x of
          Inl (h, b, n, p, out) \<Rightarrow> 2 * size n
        | Inr (h, es, p, out) \<Rightarrow> 2 * size (Dir es) - 1)")
  show "wf (measure (\<lambda>x. case x of
          Inl (h, b, n, p, out) \<Rightarrow> 2 * size n
        | Inr (h, es, p, out) \<Rightarrow> 2 * size (Dir es) - 1))"
    by simp
qed (auto simp: size_list_sort_cmp)

section \<open>The content pass\<close>

text \<open>
  The state of \<open>processDirectory\<close>: the text written to \<open>outputFile\<close> so far and the
  three running counters.
\<close>

record wstate =
  out :: jsstring
  totalLines :: nat
  totalTokens :: nat
  fileCount :: nat

text \<open>
  \<open>fs.readFileSync(filePath, {encoding})\<close>: the encoding is validated first (the
  name \<open>utf32le\<close> is not one the platform knows, and the error has the host's
  message), then the file is read and decoded.
\<close>

definition readFileSync :: "host \<Rightarrow> filedata \<Rightarrow> encoding \<Rightarrow> jsstring + jsstring" where
  "readFileSync h f enc =
     (if enc = Utf32le then Inl (encodingError h)
      else case read_err f of
             Some msg \<Rightarrow> Inl msg
           | None \<Rightarrow> Inr (decode h enc (bytes f)))"

text \<open>
  \<open>path.relative(startPath, filePath)\<close>: the names from \<open>startPath\<close> down to the
  file, joined by the separator.
\<close>

fun joinPath :: "jsstring list \<Rightarrow> jsstring" where
  "joinPath [] = []"
| "joinPath [name] = name"
| "joinPath (name # names) = name @ slash # joinPath names"

text \<open>
  The body of the loop over \<open>files\<close>, for one file of the directory \<open>dir\<close> (the names
  from \<open>startPath\<close> down to it), and the loop.
\<close>

definition walkFile :: "host \<Rightarrow> jsstring list \<Rightarrow> jsstring \<times> node \<Rightarrow> wstate \<Rightarrow> wstate" where
  \<open>walkFile h dir file s =
     (if shouldProcessFile h (fst file) (fileData (snd file))
      then (let encoding = getFileEncoding (fileData (snd file));
                relPath = joinPath (dir @ [fst file])
            in case readFileSync h (fileData (snd file)) encoding of
                 Inr content \<Rightarrow>
                   s\<lparr>out := out s @ str ''\<newline><file path="'' @ relPath @ str ''">\<newline>'' @
                              content @ str ''\<newline></file>\<newline>'',
                     totalLines := totalLines s + (length (filter (\<lambda>c. c = 0x0A) content) + 1),
                     totalTokens := totalTokens s + estimateTokens content,
                     fileCount := fileCount s + 1\<rparr>
               | Inl message \<Rightarrow>
                   s\<lparr>out := out s @ str ''\<newline><error file="'' @ relPath @ str ''">'' @
                              message @ str ''</error>\<newline>''\<rparr>)
      else s)\<close>

fun walkFiles :: "host \<Rightarrow> jsstring list \<Rightarrow> (jsstring \<times> node) list \<Rightarrow> wstate \<Rightarrow> wstate" where
  "walkFiles h dir [] s = s"
| "walkFiles h dir (file # files) s = walkFiles h dir files (walkFile h dir file s)"

text \<open>
  \<open>walkDir\<close>, on the node at \<open>dir\<close>. Its \<open>readdirSync\<close> is outside every
  \<open>try\<close>: an exception leaves \<open>walkDir\<close> and all its callers, and the result is
  \<open>Inl\<close> of its message and the state at the throw. \<open>walkSubdirs\<close> is the loop over
  \<open>dirs\<close>.
\<close>

function walkDir :: "host \<Rightarrow> jsstring list \<Rightarrow> node \<Rightarrow> wstate \<Rightarrow> jsstring \<times> wstate + wstate"
  and walkSubdirs :: "host \<Rightarrow> jsstring list \<Rightarrow> (jsstring \<times> node) list \<Rightarrow> wstate
                       \<Rightarrow> jsstring \<times> wstate + wstate"
where
  "walkDir h dir (Dir entries) s =
     (let dirs = filter (\<lambda>entry. fst entry \<notin> EXCLUDED_DIRS)
                   (filter (\<lambda>entry. isDirectory (snd entry)) entries);
          files = sort_cmp (compareFiles h) (filter (\<lambda>entry. isFile (snd entry)) entries)
      in walkSubdirs h dir dirs (walkFiles h dir files s))"
| "walkDir h dir (Denied msg) s = Inl (msg, s)"
| "walkDir h dir (File f) s = Inl (ENOTDIR, s)"
| "walkDir h dir (Special f) s = Inl (ENOTDIR, s)"
| "walkSubdirs h dir [] s = Inr s"
| "walkSubdirs h dir (subdir # dirs) s =
     (case walkDir h (dir @ [fst subdir]) (snd subdir) s of
        Inl thrown \<Rightarrow> Inl thrown
      | Inr s' \<Rightarrow> walkSubdirs h dir dirs s')"
  by pat_completeness auto
termination
proof (relation "measure (\<lambda>x. case x of
          Inl (h, d, n, s) \<Rightarrow> 2 * size n
        | Inr (h, d, es, s) \<Rightarrow> 2 * size (Dir es) - 1)")
  show "wf (measure (\<lambda>x. case x of
          Inl (h, d, n, s) \<Rightarrow> 2 * size n
        | Inr (h, d, es, s) \<Rightarrow> 2 * size (Dir es) - 1))"
    by simp
next
  fix h :: host and dir :: "jsstring list" and entries :: "(jsstring \<times> node) list"
    and s :: wstate and x xa
  assume "x = filter (\<lambda>entry. fst entry \<notin> EXCLUDED_DIRS)
                (filter (\<lambda>entry. isDirectory (snd entry)) entries)"
  then have "size_list (size_prod (\<lambda>x. 0) size) x
               \<le> size_list (size_prod (\<lambda>x. 0) size) entries"
    using size_list_filter_le [of "size_prod (\<lambda>x. 0) size" "\<lambda>entry. fst entry \<notin> EXCLUDED_DIRS"
        "filter (\<lambda>entry. isDirectory (snd entry)) entries"]
      size_list_filter_le [of "size_prod (\<lambda>x. 0) size" "\<lambda>entry. isDirectory (snd entry)" entries]
    by simp
  then show "(Inr (h, dir, x, walkFiles h dir xa s), Inl (h, dir, Dir entries, s))
          \<in> measure (\<lambda>x. case x of
                Inl (h, d, n, s) \<Rightarrow> 2 * size n
              | Inr (h, d, es, s) \<Rightarrow> 2 * size (Dir es) - 1)"
    by simp
next
  fix h :: host and dir :: "jsstring list" and subdir :: "jsstring \<times> node"
    and dirs :: "(jsstring \<times> node) list" and s :: wstate
  have "size (snd subdir) \<le> size_prod (\<lambda>x. 0) size subdir"
    by (cases subdir) simp
  then show "(Inl (h, dir @ [fst subdir], snd subdir, s), Inr (h, dir, subdir # dirs, s))
          \<in> measure (\<lambda>x. case x of
                Inl (h, d, n, s) \<Rightarrow> 2 * size n
              | Inr (h, d, es, s) \<Rightarrow> 2 * size (Dir es) - 1)"
    by simp
qed simp

text \<open>
  \<open>processDirectory\<close>, on \<open>startPath\<close> and the node there. It returns the state after
  \<open>outputFile.end()\<close> (\<open>Inr\<close>), or leaves by the exception of \<open>walkDir\<close> before the
  closing markers are written (\<open>Inl\<close>).
\<close>

definition processDirectory :: "host \<Rightarrow> jsstring \<Rightarrow> node \<Rightarrow> jsstring \<times> wstate + wstate" where
  "processDirectory h startPath root =
     (let header = str ''<project_overview>\<newline>'' @
                   str ''<generated_at>'' @ basename startPath @ str ''</generated_at>\<newline>\<newline>'' @
                   str ''<directory_structure>\<newline>'';
          tree = generateTree h (basename startPath) root [] header;
          s0 = \<lparr>out = tree @ str ''</directory_structure>\<newline>\<newline>'' @ str ''<file_contents>\<newline>'',
                totalLines = 0, totalTokens = 0, fileCount = 0\<rparr>
      in case walkDir h [] root s0 of
           Inl thrown \<Rightarrow> Inl thrown
         | Inr s \<Rightarrow> Inr (s\<lparr>out := out s @ str ''</file_contents>\<newline>'' @ str ''</project_overview>''\<rparr>))"

section \<open>Main execution\<close>

text \<open>The decimal digits of a number, as a template literal prints it.\<close>

fun decimal :: "nat \<Rightarrow> jsstring" where
  "decimal n = (if n < 10 then [0x30 + of_nat n] else decimal (n div 10) @ [0x30 + of_nat (n mod 10)])"

datatype console = Log jsstring | Error jsstring

text \<open>
  The main block, on the host and the node at \<open>process.cwd()\<close>: the lines printed and
  the text written to the output file.
\<close>

definition main :: "host \<Rightarrow> node \<Rightarrow> console list \<times> jsstring" where
  "main h root =
     (let currentDir = cwd h;
          outputFile = str ''project-context.txt''
      in case processDirectory h currentDir root of
           Inr s \<Rightarrow>
             ([Log (str ''\<newline>Project Context Generation Complete''),
               Log (str ''Output file: '' @ outputFile),
               Log (str ''Files processed: '' @ decimal (fileCount s)),
               Log (str ''Total lines: '' @ decimal (totalLines s)),
               Log (str ''Estimated tokens: '' @ decimal (totalTokens s))],
              out s)
         | Inl thrown \<Rightarrow>
             ([Error (str ''Error: '' @ fst thrown)], out (snd thrown)))"

section \<open>The token estimate, as the specification words it\<close>

text \<open>
  The number of words is one more than the number of maximal runs of white space
  (\<open>runs_from prev\<close> counts the runs that start in the rest of the text, \<open>prev\<close>
  telling whether the character before was white space); the special characters are the
  characters that are no ASCII letter, no digit and no white space.
\<close>

fun runs_from :: "bool \<Rightarrow> jsstring \<Rightarrow> nat" where
  "runs_from prev [] = 0"
| "runs_from prev (c # cs) =
     (if is_space c \<and> \<not> prev then 1 else 0) + runs_from (is_space c) cs"

definition spec_words :: "jsstring \<Rightarrow> nat" where
  "spec_words text = runs_from False text + 1"

fun spec_specialChars :: "jsstring \<Rightarrow> nat" where
  "spec_specialChars [] = 0"
| "spec_specialChars (c # cs) =
     (if (0x41 \<le> c \<and> c \<le> 0x5A) \<or> (0x61 \<le> c \<and> c \<le> 0x7A) \<or> (0x30 \<le> c \<and> c \<le> 0x39) \<or>
         is_space c
      then 0 else 1) + spec_specialChars cs"

section \<open>The order of the tree listings, as the specification words it\<close>

text \<open>
  \<open>tree_le h a b\<close>: the entry \<open>a\<close> may stand before the entry \<open>b\<close>. Of a directory
  and an entry that is none, the directory comes first; two directories, or two entries
  that are none, are ordered by the host's collation of their lower-cased names.
\<close>

definition tree_le :: "host \<Rightarrow> jsstring \<times> node \<Rightarrow> jsstring \<times> node \<Rightarrow> bool" where
  "tree_le h a b =
     (if isDirectory (snd a) = isDirectory (snd b)
      then localeCompare h (toLowerCase h (fst a)) (toLowerCase h (fst b)) \<le> 0
      else isDirectory (snd a))"

text \<open>
  The collation of the host is a consistent comparator: exchanging the arguments
  exchanges the sign, and "not after" is transitive.
\<close>

definition consistent :: "host \<Rightarrow> bool" where
  "consistent h =
     ((\<forall>a b. (localeCompare h a b < 0) = (0 < localeCompare h b a)) \<and>
      (\<forall>a b c. localeCompare h a b \<le> 0 \<and> localeCompare h b c \<le> 0
                 \<longrightarrow> localeCompare h a c \<le> 0))"

text \<open>
  \<open>printTree\<close> writes a tree with every listing in the order in which it is given:
  the line of the directory, then, entry by entry, the subtree of a directory that is not
  excluded or the line of a file that passes \<open>shouldProcessFile\<close>, with the glyphs of
  the last and of the earlier entries.
\<close>

function printTree :: "host \<Rightarrow> jsstring \<Rightarrow> node \<Rightarrow> jsstring \<Rightarrow> jsstring"
  and printItems :: "host \<Rightarrow> (jsstring \<times> node) list \<Rightarrow> jsstring \<Rightarrow> jsstring"
where
  "printTree h name (Dir entries) prefix =
     (if name \<in> EXCLUDED_DIRS then []
      else prefix @ name @ str ''/\<newline>'' @ printItems h entries prefix)"
| "printTree h name (Denied msg) prefix =
     (if name \<in> EXCLUDED_DIRS then []
      else prefix @ name @ str ''/\<newline>'' @ prefix @ str ''[ACCESS DENIED]\<newline>'')"
| "printTree h name (File f) prefix =
     (if name \<in> EXCLUDED_DIRS then []
      else prefix @ name @ str ''/\<newline>'' @ prefix @ str ''[ACCESS DENIED]\<newline>'')"
| "printTree h name (Special f) prefix =
     (if name \<in> EXCLUDED_DIRS then []
      else prefix @ name @ str ''/\<newline>'' @ prefix @ str ''[ACCESS DENIED]\<newline>'')"
| "printItems h [] prefix = []"
| "printItems h (item # rest) prefix =
     (if isDirectory (snd item)
      then (if fst item \<notin> EXCLUDED_DIRS
            then printTree h (fst item) (snd item)
                   (prefix @ (if rest = [] then str ''   '' else bar))
            else [])
      else (if shouldProcessFile h (fst item) (fileData (snd item))
            then prefix @ (if rest = [] then lastBranch else midBranch) @ fst item @ str ''\<newline>''
            else []))
     @ printItems h rest prefix"
  by pat_completeness auto
termination
proof (relation "measure (\<lambda>x. case x of
          Inl (h, b, n, p) \<Rightarrow> 2 * size n
        | Inr (h, es, p) \<Rightarrow> 2 * size (Dir es) - 1)")
  show "wf (measure (\<lambda>x. case x of
          Inl (h, b, n, p) \<Rightarrow> 2 * size n
        | Inr (h, es, p) \<Rightarrow> 2 * size (Dir es) - 1))"
    by simp
qed auto

text \<open>
  \<open>sortTree\<close> puts every listing of a tree, at every depth, in the order of the tree
  pass; \<open>sortEntries\<close> does so inside each entry of a listing.
\<close>

fun sortTree :: "host \<Rightarrow> node \<Rightarrow> node"
  and sortEntries :: "host \<Rightarrow> (jsstring \<times> node) list \<Rightarrow> (jsstring \<times> node) list"
where
  "sortTree h (Dir entries) = Dir (sort_cmp (compareItems h) (sortEntries h entries))"
| "sortTree h (Denied msg) = Denied msg"
| "sortTree h (File f) = File f"
| "sortTree h (Special f) = Special f"
| "sortEntries h [] = []"
| "sortEntries h (entry # entries) = (fst entry, sortTree h (snd entry)) # sortEntries h entries"

text \<open>
  \<open>ordered h n\<close>: every listing of the tree \<open>n\<close>, at every depth, has the directories
  before the other entries and each group in the order of the lower-cased names.
\<close>

fun ordered :: "host \<Rightarrow> node \<Rightarrow> bool"
  and orderedAll :: "host \<Rightarrow> (jsstring \<times> node) list \<Rightarrow> bool"
where
  "ordered h (Dir entries) = (sorted_wrt (tree_le h) entries \<and> orderedAll h entries)"
| "ordered h (Denied msg) = True"
| "ordered h (File f) = True"
| "ordered h (Special f) = True"
| "orderedAll h [] = True"
| "orderedAll h (entry # entries) = (ordered h (snd entry) \<and> orderedAll h entries)"

text \<open>
  \<open>rearranged n n'\<close>: the tree \<open>n'\<close> is the tree \<open>n\<close> with its listings permuted:
  the same entries under the same names, nothing added and nothing lost.
\<close>

inductive rearranged :: "node \<Rightarrow> node \<Rightarrow> bool" where
  "rearranged (Denied msg) (Denied msg)"
| "rearranged (File f) (File f)"
| "rearranged (Special f) (Special f)"
| "list_all2 (\<lambda>a b. fst a = fst b \<and> rearranged (snd a) (snd b)) entries entries1
     \<Longrightarrow> mset entries2 = mset entries1
     \<Longrightarrow> rearranged (Dir entries) (Dir entries2)"

section \<open>Sample inputs\<close>

text \<open>
  A host whose decoder maps each byte to the code unit of the same value, whose case
  mapping is that of the ASCII letters and whose collation is the dictionary order of
  the code units (on ASCII bytes, letters and digits they are what the platform
  does); the bytes of an ASCII text; and a regular file all of whose reads succeed.
\<close>

definition lowerChar :: "jschar \<Rightarrow> jschar" where
  "lowerChar c = (if 0x41 \<le> c \<and> c \<le> 0x5A then c + 0x20 else c)"

definition codeUnitCompare :: "jsstring \<Rightarrow> jsstring \<Rightarrow> int" where
  "codeUnitCompare a b = (if a < b then - 1 else if a = b then 0 else 1)"

definition demoHost :: host where
  "demoHost = \<lparr>scriptPath = str ''/proj/project2context.js'', args = [], cwd = str ''/proj'',
                decode = (\<lambda>enc bs. map ucast bs),
                encodingError = str ''invalid encoding'',
                toLowerCase = map lowerChar,
                localeCompare = codeUnitCompare\<rparr>"

definition ascii :: "string \<Rightarrow> byte list" where
  "ascii s = map of_char s"

definition plain :: "byte list \<Rightarrow> filedata" where
  "plain bs = \<lparr>bytes = bs, sniff_err = None, probe_err = None, read_err = None\<rparr>"

section \<open>Properties of the filter engine\<close>

lemma getFileEncoding_cases:
  "getFileEncoding f =
     (if probe_err f \<noteq> None then Utf8
      else if take 3 (bytes f) = [0xEF, 0xBB, 0xBF] then Utf8
      else if take 2 (bytes f) = [0xFF, 0xFE] \<or> take 2 (bytes f) = [0xFE, 0xFF] then Utf16le
      else if take 4 (bytes f) = [0x00, 0x00, 0xFE, 0xFF] then Utf32le
      else Utf8)"
proof (cases "bytes f")
  case Nil
  then show ?thesis by (auto simp: getFileEncoding_def split: option.splits)
next
  case c1: (Cons b0 r0)
  show ?thesis
  proof (cases r0)
    case Nil
    with c1 show ?thesis by (auto simp: getFileEncoding_def split: option.splits)
  next
    case c2: (Cons b1 r1)
    show ?thesis
    proof (cases r1)
      case Nil
      with c1 c2 show ?thesis by (auto simp: getFileEncoding_def split: option.splits)
    next
      case c3: (Cons b2 r2)
      show ?thesis
      proof (cases r2)
        case Nil
        with c1 c2 c3 show ?thesis by (auto simp: getFileEncoding_def split: option.splits)
      next
        case (Cons b3 r3)
        with c1 c2 c3 show ?thesis by (auto simp: getFileEncoding_def split: option.splits)
      qed
    qed
  qed
qed

lemma demo_name_ok:
  "shouldProcessFile demoHost (str ''a.txt'') (plain bs\<lparr>read_err := e\<rparr>)
     = (0 \<notin> set (take 1024 bs))"
  by (simp add: shouldProcessFile_def getScriptName_def demoHost_def basename_def slash_def
      str_def EXCLUDED_FILES_def EXCLUDED_EXTENSIONS_def TEXT_EXTENSIONS_def
      extname_def dot_def lowerChar_def isTextFile_def plain_def)

lemma bom32be_has_null:
  assumes "take 4 (bytes f) = [0x00, 0x00, 0xFE, 0xFF]"
  shows "0 \<in> set (take 1024 (bytes f))"
proof -
  have "set (take 4 (bytes f)) \<subseteq> set (take 1024 (bytes f))"
    by (rule set_take_subset_set_take) simp
  with assms show ?thesis by auto
qed

text \<open>
  A file that begins with 00 00 FE FF never passes \<open>shouldProcessFile\<close>: the null
  bytes of the marker are within the first 1024 bytes. The content pass writes nothing
  for it.
\<close>

lemma bom32be_not_processed:
  assumes "take 4 (bytes f) = [0x00, 0x00, 0xFE, 0xFF]"
  shows "\<not> shouldProcessFile h fileName f"
  using bom32be_has_null [OF assms]
  by (simp add: shouldProcessFile_def isTextFile_def Let_def split: option.splits)

text \<open>
  For such a file \<open>getFileEncoding\<close> gives \<open>utf32le\<close> when its probe succeeds, a
  name that \<open>readFileSync\<close> rejects.
\<close>

lemma bom32be_encoding:
  assumes "take 4 (bytes f) = [0x00, 0x00, 0xFE, 0xFF]"
  shows "getFileEncoding f = (if probe_err f = None then Utf32le else Utf8)"
    and "readFileSync h f Utf32le = Inl (encodingError h)"
proof -
  have "take 3 (take 4 (bytes f)) = [0x00, 0x00, 0xFE]" "take 2 (take 4 (bytes f)) = [0x00, 0x00]"
    using assms by simp_all
  then have "take 3 (bytes f) = [0x00, 0x00, 0xFE]" "take 2 (bytes f) = [0x00, 0x00]"
    by simp_all
  with assms show "getFileEncoding f = (if probe_err f = None then Utf32le else Utf8)"
    by (simp add: getFileEncoding_cases)
  show "readFileSync h f Utf32le = Inl (encodingError h)"
    by (simp add: readFileSync_def)
qed

lemma notes_txt_checks:
  "str ''notes.txt'' \<noteq> getScriptName demoHost"
  "str ''notes.txt'' \<notin> EXCLUDED_FILES"
  "toLowerCase demoHost (extname (str ''notes.txt'')) \<notin> EXCLUDED_EXTENSIONS"
  "toLowerCase demoHost (extname (str ''notes.txt'')) \<in> TEXT_EXTENSIONS \<or> toLowerCase demoHost (extname (str ''notes.txt'')) = []"
  by (simp_all add: getScriptName_def demoHost_def basename_def slash_def str_def
      EXCLUDED_FILES_def EXCLUDED_EXTENSIONS_def TEXT_EXTENSIONS_def
      extname_def dot_def lowerChar_def)

lemma Makefile_checks:
  "str ''Makefile'' \<noteq> getScriptName demoHost"
  "str ''Makefile'' \<notin> EXCLUDED_FILES"
  "toLowerCase demoHost (extname (str ''Makefile'')) \<notin> EXCLUDED_EXTENSIONS"
  "toLowerCase demoHost (extname (str ''Makefile'')) \<in> TEXT_EXTENSIONS \<or> toLowerCase demoHost (extname (str ''Makefile'')) = []"
  by (simp_all add: getScriptName_def demoHost_def basename_def slash_def str_def
      EXCLUDED_FILES_def EXCLUDED_EXTENSIONS_def TEXT_EXTENSIONS_def
      extname_def dot_def lowerChar_def)

text \<open>
  C6: the null-byte sniff is the final gate of \<open>shouldProcessFile\<close>. For a file that
  survives the script-name, excluded-name and extension checks (its extension a text
  extension or empty), the result is true exactly when the read succeeds and no null
  byte occurs in the first 1024 bytes: false on a null byte there, false when the read
  throws (nothing is raised to the caller), true otherwise.
\<close>

theorem shouldProcessFile_final_gate:
  assumes "fileName \<noteq> getScriptName h"
    and "fileName \<notin> EXCLUDED_FILES"
    and "toLowerCase h (extname fileName) \<notin> EXCLUDED_EXTENSIONS"
    and "toLowerCase h (extname fileName) \<in> TEXT_EXTENSIONS \<or> toLowerCase h (extname fileName) = []"
  shows "shouldProcessFile h fileName f
           = (sniff_err f = None \<and> 0 \<notin> set (take 1024 (bytes f)))"
  using assms by (auto simp: shouldProcessFile_def isTextFile_def Let_def split: option.splits)

theorem shouldProcessFile_final_gate_witness:
  "(str ''notes.txt'' \<noteq> getScriptName demoHost \<and> str ''notes.txt'' \<notin> EXCLUDED_FILES
    \<and> toLowerCase demoHost (extname (str ''notes.txt'')) \<notin> EXCLUDED_EXTENSIONS
    \<and> (toLowerCase demoHost (extname (str ''notes.txt'')) \<in> TEXT_EXTENSIONS
        \<or> toLowerCase demoHost (extname (str ''notes.txt'')) = []))
   \<and> (str ''Makefile'' \<noteq> getScriptName demoHost \<and> str ''Makefile'' \<notin> EXCLUDED_FILES
    \<and> toLowerCase demoHost (extname (str ''Makefile'')) \<notin> EXCLUDED_EXTENSIONS
    \<and> (toLowerCase demoHost (extname (str ''Makefile'')) \<in> TEXT_EXTENSIONS
        \<or> toLowerCase demoHost (extname (str ''Makefile'')) = []))
   \<and> \<not> shouldProcessFile demoHost (str ''notes.txt'') (plain (ascii ''ab'' @ [0x00] @ ascii ''cd''))
   \<and> shouldProcessFile demoHost (str ''notes.txt'') (plain (ascii ''abcd''))
   \<and> shouldProcessFile demoHost (str ''Makefile'') (plain (ascii ''all:''))
   \<and> \<not> shouldProcessFile demoHost (str ''Makefile'')
         (plain (ascii ''all:'')\<lparr>sniff_err := Some (str ''EACCES'')\<rparr>)
   \<and> shouldProcessFile demoHost (str ''Makefile'') (plain (replicate 1024 0x61 @ [0x00]))"
proof -
  note n = notes_txt_checks
  note m = Makefile_checks
  have "\<not> shouldProcessFile demoHost (str ''notes.txt'') (plain (ascii ''ab'' @ [0x00] @ ascii ''cd''))"
    using shouldProcessFile_final_gate [OF n, of "plain (ascii ''ab'' @ [0x00] @ ascii ''cd'')"]
    by (simp add: plain_def ascii_def)
  moreover have "shouldProcessFile demoHost (str ''notes.txt'') (plain (ascii ''abcd''))"
    using shouldProcessFile_final_gate [OF n, of "plain (ascii ''abcd'')"]
    by (simp add: plain_def ascii_def)
  moreover have "shouldProcessFile demoHost (str ''Makefile'') (plain (ascii ''all:''))"
    using shouldProcessFile_final_gate [OF m, of "plain (ascii ''all:'')"]
    by (simp add: plain_def ascii_def)
  moreover have "\<not> shouldProcessFile demoHost (str ''Makefile'')
         (plain (ascii ''all:'')\<lparr>sniff_err := Some (str ''EACCES'')\<rparr>)"
    using shouldProcessFile_final_gate [OF m, of
        "plain (ascii ''all:'')\<lparr>sniff_err := Some (str ''EACCES'')\<rparr>"]
    by (simp add: plain_def ascii_def)
  moreover have "shouldProcessFile demoHost (str ''Makefile'') (plain (replicate 1024 0x61 @ [0x00]))"
    using shouldProcessFile_final_gate [OF m, of "plain (replicate 1024 0x61 @ [0x00])"]
    by (simp add: plain_def)
  ultimately show ?thesis
    using n m by blast
qed

text \<open>
  The order of the marker tests: a file that begins with the UTF-32 little-endian marker
  FF FE 00 00 is classified \<open>utf16le\<close>, because the test for FF FE runs before the
  test for FF FE 00 00, whose first alternative is never reached.
\<close>

lemma getFileEncoding_utf32le_bom_shadowed:
  "getFileEncoding (plain [0xFF, 0xFE, 0x00, 0x00, 0x41, 0x00, 0x00, 0x00]) = Utf16le"
  by (simp add: getFileEncoding_def plain_def)

text \<open>
  C3, as stated, at a file that begins with 00 00 FE FF, a prefix other than the three
  the claim names: the result is \<open>utf32le\<close>, not \<open>utf8\<close>.
\<close>

theorem getFileEncoding_other_prefix_counterexample:
  "getFileEncoding (plain [0x00, 0x00, 0xFE, 0xFF, 0x00, 0x00, 0x00, 0x41]) = Utf32le
   \<and> getFileEncoding (plain [0x00, 0x00, 0xFE, 0xFF, 0x00, 0x00, 0x00, 0x41]) \<noteq> Utf8"
  by (simp add: getFileEncoding_def plain_def)

text \<open>
  C3, amended: for a file that does not begin with FF FE 00 00, a file beginning with
  EF BB BF is detected as \<open>utf8\<close>, one beginning with FF FE or FE FF as \<open>utf16le\<close>,
  one beginning with 00 00 FE FF as \<open>utf32le\<close>, and for any other prefix or on probe
  failure the result is \<open>utf8\<close>.
\<close>

theorem getFileEncoding_classification:
  assumes "take 4 (bytes f) \<noteq> [0xFF, 0xFE, 0x00, 0x00]"
  shows "getFileEncoding f =
     (if probe_err f \<noteq> None then Utf8
      else if take 3 (bytes f) = [0xEF, 0xBB, 0xBF] then Utf8
      else if take 2 (bytes f) = [0xFF, 0xFE] \<or> take 2 (bytes f) = [0xFE, 0xFF] then Utf16le
      else if take 4 (bytes f) = [0x00, 0x00, 0xFE, 0xFF] then Utf32le
      else Utf8)"
  by (rule getFileEncoding_cases)

theorem getFileEncoding_classification_witness:
  "take 4 (bytes (plain [0xEF, 0xBB, 0xBF, 0x68, 0x69])) \<noteq> [0xFF, 0xFE, 0x00, 0x00]
   \<and> getFileEncoding (plain [0xEF, 0xBB, 0xBF, 0x68, 0x69]) = Utf8
   \<and> take 4 (bytes (plain [0xFF, 0xFE, 0x68, 0x00])) \<noteq> [0xFF, 0xFE, 0x00, 0x00]
   \<and> getFileEncoding (plain [0xFF, 0xFE, 0x68, 0x00]) = Utf16le
   \<and> take 4 (bytes (plain [0xFE, 0xFF, 0x00, 0x68])) \<noteq> [0xFF, 0xFE, 0x00, 0x00]
   \<and> getFileEncoding (plain [0xFE, 0xFF, 0x00, 0x68]) = Utf16le
   \<and> take 4 (bytes (plain [0x00, 0x00, 0xFE, 0xFF])) \<noteq> [0xFF, 0xFE, 0x00, 0x00]
   \<and> getFileEncoding (plain [0x00, 0x00, 0xFE, 0xFF]) = Utf32le
   \<and> take 4 (bytes (plain (ascii ''hi''))) \<noteq> [0xFF, 0xFE, 0x00, 0x00]
   \<and> getFileEncoding (plain (ascii ''hi'')) = Utf8
   \<and> take 4 (bytes (plain [0xFE, 0xFF, 0x00, 0x68]\<lparr>probe_err := Some (str ''EACCES'')\<rparr>))
         \<noteq> [0xFF, 0xFE, 0x00, 0x00]
   \<and> getFileEncoding (plain [0xFE, 0xFF, 0x00, 0x68]\<lparr>probe_err := Some (str ''EACCES'')\<rparr>) = Utf8"
proof -
  have a: "take 4 (bytes (plain [0xEF, 0xBB, 0xBF, 0x68, 0x69])) \<noteq> [0xFF, 0xFE, 0x00, 0x00]"
    and b: "take 4 (bytes (plain [0xFF, 0xFE, 0x68, 0x00])) \<noteq> [0xFF, 0xFE, 0x00, 0x00]"
    and c: "take 4 (bytes (plain [0xFE, 0xFF, 0x00, 0x68])) \<noteq> [0xFF, 0xFE, 0x00, 0x00]"
    and d: "take 4 (bytes (plain [0x00, 0x00, 0xFE, 0xFF])) \<noteq> [0xFF, 0xFE, 0x00, 0x00]"
    and e: "take 4 (bytes (plain (ascii ''hi''))) \<noteq> [0xFF, 0xFE, 0x00, 0x00]"
    and g: "take 4 (bytes (plain [0xFE, 0xFF, 0x00, 0x68]\<lparr>probe_err := Some (str ''EACCES'')\<rparr>))
         \<noteq> [0xFF, 0xFE, 0x00, 0x00]"
    by (simp_all add: plain_def ascii_def)
  show ?thesis
    using a b c d e g
      getFileEncoding_classification [OF a] getFileEncoding_classification [OF b]
      getFileEncoding_classification [OF c] getFileEncoding_classification [OF d]
      getFileEncoding_classification [OF e] getFileEncoding_classification [OF g]
    by (simp add: plain_def ascii_def)
qed

section \<open>Properties of the content pass\<close>

text \<open>
  C5: for a file that passes \<open>shouldProcessFile\<close> and whose read throws, the content
  pass writes the error block with the relative path and the message of the error,
  changes none of the three counters, and goes on with the files that follow.
\<close>

theorem unreadable_file_error_block:
  assumes "shouldProcessFile h (fst file) (fileData (snd file))"
    and "readFileSync h (fileData (snd file)) (getFileEncoding (fileData (snd file))) = Inl message"
  shows \<open>walkFiles h dir (file # files) s =
           walkFiles h dir files
             (s\<lparr>out := out s @ str ''\<newline><error file="'' @ joinPath (dir @ [fst file]) @ str ''">'' @
                        message @ str ''</error>\<newline>''\<rparr>)\<close>
  using assms by (simp add: walkFile_def)

theorem unreadable_file_error_block_witness:
  \<open>shouldProcessFile demoHost (str ''a.txt'')
      (fileData (File (plain (ascii ''hi'')\<lparr>read_err := Some (str ''EACCES'')\<rparr>)))
   \<and> readFileSync demoHost (fileData (File (plain (ascii ''hi'')\<lparr>read_err := Some (str ''EACCES'')\<rparr>)))
        (getFileEncoding (fileData (File (plain (ascii ''hi'')\<lparr>read_err := Some (str ''EACCES'')\<rparr>))))
       = Inl (str ''EACCES'')
   \<and> walkFiles demoHost [str ''sub'']
        [(str ''a.txt'', File (plain (ascii ''hi'')\<lparr>read_err := Some (str ''EACCES'')\<rparr>))]
        \<lparr>out = [], totalLines = 0, totalTokens = 0, fileCount = 0\<rparr>
       = \<lparr>out = str ''\<newline><error file="sub/a.txt">EACCES</error>\<newline>'',
          totalLines = 0, totalTokens = 0, fileCount = 0\<rparr>\<close>
proof -
  let ?f = "plain (ascii ''hi'')\<lparr>read_err := Some (str ''EACCES'')\<rparr>"
  have a: "shouldProcessFile demoHost (fst (str ''a.txt'', File ?f)) (fileData (snd (str ''a.txt'', File ?f)))"
    by (simp add: demo_name_ok ascii_def)
  have b: "readFileSync demoHost (fileData (snd (str ''a.txt'', File ?f)))
             (getFileEncoding (fileData (snd (str ''a.txt'', File ?f)))) = Inl (str ''EACCES'')"
    by (simp add: readFileSync_def getFileEncoding_def plain_def ascii_def)
  show ?thesis
    using a b unreadable_file_error_block [OF a b, of "[str ''sub'']" "[]"
        "\<lparr>out = [], totalLines = 0, totalTokens = 0, fileCount = 0\<rparr>"]
    by (simp add: str_def slash_def)
qed

text \<open>
  C10: a file read successfully whose decoded content is the empty string adds 1 to
  \<open>totalLines\<close> and 1 to \<open>totalTokens\<close> (and is counted as a file): the split of
  the empty string is one empty piece.
\<close>

theorem empty_file_counts_one:
  assumes "shouldProcessFile h (fst file) (fileData (snd file))"
    and "readFileSync h (fileData (snd file)) (getFileEncoding (fileData (snd file))) = Inr []"
  shows "totalLines (walkFile h dir file s) = totalLines s + 1
       \<and> totalTokens (walkFile h dir file s) = totalTokens s + 1
       \<and> fileCount (walkFile h dir file s) = fileCount s + 1
       \<and> split_ws [] = [[]]"
  using assms by (simp add: walkFile_def estimateTokens_def split_ws_def)

theorem empty_file_counts_one_witness:
  "shouldProcessFile demoHost (str ''a.txt'') (plain [])
   \<and> readFileSync demoHost (plain []) (getFileEncoding (plain [])) = Inr []
   \<and> totalLines (walkFile demoHost [] (str ''a.txt'', File (plain []))
        \<lparr>out = [], totalLines = 0, totalTokens = 0, fileCount = 0\<rparr>) = 1
   \<and> totalTokens (walkFile demoHost [] (str ''a.txt'', File (plain []))
        \<lparr>out = [], totalLines = 0, totalTokens = 0, fileCount = 0\<rparr>) = 1"
proof -
  have a: "shouldProcessFile demoHost (fst (str ''a.txt'', File (plain [])))
             (fileData (snd (str ''a.txt'', File (plain []))))"
    using demo_name_ok [where bs = "[]" and e = None] by (simp add: plain_def)
  have b: "readFileSync demoHost (fileData (snd (str ''a.txt'', File (plain []))))
             (getFileEncoding (fileData (snd (str ''a.txt'', File (plain []))))) = Inr []"
    by (simp add: readFileSync_def getFileEncoding_def plain_def demoHost_def)
  show ?thesis
    using a b empty_file_counts_one [OF a b, of "[]"
        "\<lparr>out = [], totalLines = 0, totalTokens = 0, fileCount = 0\<rparr>"]
    by simp
qed

section \<open>Properties of the tree pass\<close>

lemma set_insert_cmp: "set (insert_cmp cmp x xs) = insert x (set xs)"
  by (induction xs) auto

lemma set_sort_cmp: "set (sort_cmp cmp xs) = set xs"
  by (induction xs) (auto simp: set_insert_cmp)

lemma mset_insert_cmp: "mset (insert_cmp cmp x xs) = add_mset x (mset xs)"
  by (induction xs) auto

lemma mset_sort_cmp: "mset (sort_cmp cmp xs) = mset xs"
  by (induction xs) (auto simp: mset_insert_cmp)

lemma compareItems_le: "compareItems h a b \<le> 0 \<longleftrightarrow> tree_le h a b"
  by (auto simp: compareItems_def tree_le_def)

lemma tree_le_total:
  assumes "consistent h"
  shows "tree_le h a b \<or> tree_le h b a"
proof -
  let ?x = "toLowerCase h (fst a)" and ?y = "toLowerCase h (fst b)"
  have "(localeCompare h ?y ?x < 0) = (0 < localeCompare h ?x ?y)"
    using assms unfolding consistent_def by blast
  then have "localeCompare h ?x ?y \<le> 0 \<or> localeCompare h ?y ?x \<le> 0"
    by linarith
  then show ?thesis by (auto simp: tree_le_def)
qed

lemma tree_le_trans:
  assumes "consistent h" and "tree_le h a b" and "tree_le h b c"
  shows "tree_le h a c"
proof -
  have tr: "localeCompare h x z \<le> 0"
    if "localeCompare h x y \<le> 0" and "localeCompare h y z \<le> 0" for x y z
    using assms(1) that unfolding consistent_def by blast
  show ?thesis
    using assms(2,3) tr [of "toLowerCase h (fst a)" "toLowerCase h (fst b)" "toLowerCase h (fst c)"]
    by (auto simp: tree_le_def split: if_splits)
qed

lemma sorted_insert_items:
  assumes "consistent h"
  shows "sorted_wrt (tree_le h) xs \<Longrightarrow> sorted_wrt (tree_le h) (insert_cmp (compareItems h) x xs)"
proof (induction xs)
  case Nil
  then show ?case by simp
next
  case (Cons y ys)
  show ?case
  proof (cases "compareItems h x y \<le> 0")
    case True
    then have xy: "tree_le h x y" by (simp add: compareItems_le)
    have "tree_le h x z" if "z \<in> set ys" for z
      using Cons.prems that xy tree_le_trans [OF assms] by auto
    with xy Cons.prems True show ?thesis by auto
  next
    case False
    then have "tree_le h y x" using tree_le_total [OF assms, of x y] by (simp add: compareItems_le)
    with False Cons show ?thesis by (auto simp: set_insert_cmp)
  qed
qed

lemma sorted_sort_items:
  "consistent h \<Longrightarrow> sorted_wrt (tree_le h) (sort_cmp (compareItems h) xs)"
  by (induction xs) (auto simp: sorted_insert_items)

lemma isDirectory_sortTree: "isDirectory (sortTree h n) = isDirectory n"
  by (cases n) auto

lemma fileData_sortTree: "fileData (sortTree h n) = fileData n"
  by (cases n) auto

lemma compareItems_sortTree:
  "compareItems h (fst a, sortTree h (snd a)) (fst b, sortTree h (snd b)) = compareItems h a b"
  by (simp add: compareItems_def isDirectory_sortTree)

lemma sortEntries_insert_cmp:
  "sortEntries h (insert_cmp (compareItems h) x xs)
     = insert_cmp (compareItems h) (fst x, sortTree h (snd x)) (sortEntries h xs)"
  by (induction xs) (auto simp: compareItems_sortTree)

lemma sortEntries_sort_cmp:
  "sortEntries h (sort_cmp (compareItems h) xs) = sort_cmp (compareItems h) (sortEntries h xs)"
  by (induction xs) (auto simp: sortEntries_insert_cmp)

lemma sortEntries_Nil: "(sortEntries h xs = []) = (xs = [])"
  by (cases xs) auto

lemma generateTree_printTree:
  "generateTree h baseName n prefix w = w @ printTree h baseName (sortTree h n) prefix"
  "treeItems h items prefix w = w @ printItems h (sortEntries h items) prefix"
proof (induction h baseName n prefix w and h items prefix w rule: generateTree_treeItems.induct)
  case (1 h baseName entries prefix w)
  then show ?case by (simp add: sortEntries_sort_cmp)
next
  case (6 h item rest prefix w)
  show ?case
  proof (cases "isDirectory (snd item)")
    case True
    note dir = this
    show ?thesis
    proof (cases "fst item \<in> EXCLUDED_DIRS")
      case True
      with dir 6(2) show ?thesis
        by (simp add: isDirectory_sortTree sortEntries_Nil)
    next
      case False
      with dir 6(1) 6(2) show ?thesis
        by (simp add: isDirectory_sortTree sortEntries_Nil)
    qed
  next
    case False
    with 6(2) show ?thesis
      by (simp add: isDirectory_sortTree fileData_sortTree sortEntries_Nil)
  qed
qed simp_all

lemma orderedAll_set: "orderedAll h xs = (\<forall>e\<in>set xs. ordered h (snd e))"
  by (induction xs) auto

lemma ordered_sortTree:
  assumes "consistent h"
  shows "ordered h (sortTree h n)" and "orderedAll h (sortEntries h es)"
  using assms
proof (induction h n and h es rule: sortTree_sortEntries.induct)
  case (1 h entries)
  then have "orderedAll h (sort_cmp (compareItems h) (sortEntries h entries))"
    by (simp add: orderedAll_set set_sort_cmp)
  with 1 show ?case by (simp add: sorted_sort_items)
qed simp_all

lemma rearranged_sortTree:
  "rearranged n (sortTree h n)"
  "list_all2 (\<lambda>a b. fst a = fst b \<and> rearranged (snd a) (snd b)) es (sortEntries h es)"
proof (induction h n and h es rule: sortTree_sortEntries.induct)
  case (1 h entries)
  show ?case
    unfolding sortTree.simps
    by (rule rearranged.intros(4) [OF 1]) (simp add: mset_sort_cmp)
qed (simp_all add: rearranged.intros)

lemma demoHost_consistent: "consistent demoHost"
  by (auto simp: consistent_def demoHost_def codeUnitCompare_def)

lemmas tree_eval_defs =
  compareItems_def codeUnitCompare_def lowerChar_def tree_le_def
  shouldProcessFile_def getScriptName_def demoHost_def basename_def slash_def
  str_def EXCLUDED_DIRS_def EXCLUDED_FILES_def EXCLUDED_EXTENSIONS_def TEXT_EXTENSIONS_def
  extname_def dot_def isTextFile_def plain_def ascii_def bar_def midBranch_def lastBranch_def

text \<open>
  C8: in every directory listing of the tree pass, at every depth, the children are
  ordered with the directories before the files and, within each group, by the host's
  collation of the lower-cased names. For every host with a consistent collation, what
  \<open>generateTree\<close> writes is the tree printed listing by listing in the order given,
  after every listing has been rearranged (\<open>sortTree\<close>) into that order
  (\<open>ordered\<close>), nothing added and nothing lost (\<open>rearranged\<close>). For the siblings
  \<open>zeta/\<close>, \<open>Apple.txt\<close> and \<open>banana.txt\<close> the lines come out as \<open>zeta/\<close>, then
  \<open>Apple.txt\<close>, then \<open>banana.txt\<close>.
\<close>

theorem tree_listing_order:
  assumes "consistent h"
  shows "generateTree h baseName n prefix w = w @ printTree h baseName (sortTree h n) prefix
       \<and> ordered h (sortTree h n)
       \<and> rearranged n (sortTree h n)
       \<and> generateTree demoHost (str ''proj'')
            (Dir [(str ''banana.txt'', File (plain (ascii ''b''))),
                  (str ''zeta'', Dir []),
                  (str ''Apple.txt'', File (plain (ascii ''a'')))]) [] []
           = str ''proj/\<newline>'' @ bar @ str ''zeta/\<newline>'' @ midBranch @ str ''Apple.txt\<newline>'' @
             lastBranch @ str ''banana.txt\<newline>''"
proof (intro conjI)
  show "generateTree h baseName n prefix w = w @ printTree h baseName (sortTree h n) prefix"
    by (rule generateTree_printTree)
  show "ordered h (sortTree h n)"
    using assms by (rule ordered_sortTree)
  show "rearranged n (sortTree h n)"
    by (rule rearranged_sortTree)
  show "generateTree demoHost (str ''proj'')
            (Dir [(str ''banana.txt'', File (plain (ascii ''b''))),
                  (str ''zeta'', Dir []),
                  (str ''Apple.txt'', File (plain (ascii ''a'')))]) [] []
           = str ''proj/\<newline>'' @ bar @ str ''zeta/\<newline>'' @ midBranch @ str ''Apple.txt\<newline>'' @
             lastBranch @ str ''banana.txt\<newline>''"
    by (simp add: tree_eval_defs)
qed

theorem tree_listing_order_witness:
  "consistent demoHost
   \<and> generateTree demoHost (str ''proj'')
        (Dir [(str ''banana.txt'', File (plain (ascii ''b''))),
              (str ''zeta'', Dir [(str ''Zulu.md'', File (plain (ascii ''z''))),
                                  (str ''sub'', Dir []),
                                  (str ''alpha.md'', File (plain (ascii ''a'')))]),
              (str ''Apple.txt'', File (plain (ascii ''a'')))]) [] []
       = str ''proj/\<newline>'' @
         bar @ str ''zeta/\<newline>'' @
         bar @ bar @ str ''sub/\<newline>'' @
         bar @ midBranch @ str ''alpha.md\<newline>'' @
         bar @ lastBranch @ str ''Zulu.md\<newline>'' @
         midBranch @ str ''Apple.txt\<newline>'' @
         lastBranch @ str ''banana.txt\<newline>''
   \<and> sortTree demoHost
        (Dir [(str ''banana.txt'', File (plain (ascii ''b''))),
              (str ''zeta'', Dir [(str ''Zulu.md'', File (plain (ascii ''z''))),
                                  (str ''sub'', Dir []),
                                  (str ''alpha.md'', File (plain (ascii ''a'')))]),
              (str ''Apple.txt'', File (plain (ascii ''a'')))])
       = Dir [(str ''zeta'', Dir [(str ''sub'', Dir []),
                                  (str ''alpha.md'', File (plain (ascii ''a''))),
                                  (str ''Zulu.md'', File (plain (ascii ''z'')))]),
              (str ''Apple.txt'', File (plain (ascii ''a''))),
              (str ''banana.txt'', File (plain (ascii ''b'')))]
   \<and> ordered demoHost
        (Dir [(str ''zeta'', Dir [(str ''sub'', Dir []),
                                  (str ''alpha.md'', File (plain (ascii ''a''))),
                                  (str ''Zulu.md'', File (plain (ascii ''z'')))]),
              (str ''Apple.txt'', File (plain (ascii ''a''))),
              (str ''banana.txt'', File (plain (ascii ''b'')))])"
proof -
  let ?t = "Dir [(str ''banana.txt'', File (plain (ascii ''b''))),
              (str ''zeta'', Dir [(str ''Zulu.md'', File (plain (ascii ''z''))),
                                  (str ''sub'', Dir []),
                                  (str ''alpha.md'', File (plain (ascii ''a'')))]),
              (str ''Apple.txt'', File (plain (ascii ''a'')))]"
  have s: "sortTree demoHost ?t
       = Dir [(str ''zeta'', Dir [(str ''sub'', Dir []),
                                  (str ''alpha.md'', File (plain (ascii ''a''))),
                                  (str ''Zulu.md'', File (plain (ascii ''z'')))]),
              (str ''Apple.txt'', File (plain (ascii ''a''))),
              (str ''banana.txt'', File (plain (ascii ''b'')))]"
    by (simp add: tree_eval_defs)
  note t = tree_listing_order [OF demoHost_consistent, of "str ''proj''" ?t "[]" "[]"]
  have p: "generateTree demoHost (str ''proj'') ?t [] []
             = [] @ printTree demoHost (str ''proj'') (sortTree demoHost ?t) []"
    by (rule t [THEN conjunct1])
  have o: "ordered demoHost (sortTree demoHost ?t)"
    by (rule t [THEN conjunct2, THEN conjunct1])
  have "printTree demoHost (str ''proj'') (sortTree demoHost ?t) []
       = str ''proj/\<newline>'' @
         bar @ str ''zeta/\<newline>'' @
         bar @ bar @ str ''sub/\<newline>'' @
         bar @ midBranch @ str ''alpha.md\<newline>'' @
         bar @ lastBranch @ str ''Zulu.md\<newline>'' @
         midBranch @ str ''Apple.txt\<newline>'' @
         lastBranch @ str ''banana.txt\<newline>''"
    unfolding s by (simp add: tree_eval_defs)
  with p have g: "generateTree demoHost (str ''proj'') ?t [] []
       = str ''proj/\<newline>'' @
         bar @ str ''zeta/\<newline>'' @
         bar @ bar @ str ''sub/\<newline>'' @
         bar @ midBranch @ str ''alpha.md\<newline>'' @
         bar @ lastBranch @ str ''Zulu.md\<newline>'' @
         midBranch @ str ''Apple.txt\<newline>'' @
         lastBranch @ str ''banana.txt\<newline>''"
    by (simp only: append_Nil)
  from o have o': "ordered demoHost
        (Dir [(str ''zeta'', Dir [(str ''sub'', Dir []),
                                  (str ''alpha.md'', File (plain (ascii ''a''))),
                                  (str ''Zulu.md'', File (plain (ascii ''z'')))]),
              (str ''Apple.txt'', File (plain (ascii ''a''))),
              (str ''banana.txt'', File (plain (ascii ''b'')))])"
    unfolding s .
  show ?thesis
    by (intro conjI) (rule demoHost_consistent, rule g, rule s, rule o')
qed

section \<open>Properties of the whole run\<close>

lemmas eval_defs =
  main_def processDirectory_def walkFile_def readFileSync_def getFileEncoding_def
  estimateTokens_def split_ws_def is_space_def is_alnum_or_space_def
  compareItems_def compareFiles_def codeUnitCompare_def lowerChar_def
  shouldProcessFile_def getScriptName_def demoHost_def basename_def slash_def
  str_def EXCLUDED_DIRS_def EXCLUDED_FILES_def EXCLUDED_EXTENSIONS_def TEXT_EXTENSIONS_def
  extname_def dot_def isTextFile_def plain_def ascii_def bar_def midBranch_def lastBranch_def

text \<open>
  C1 (the code at the input where it departs from the claim): the root holds the file
  \<open>a.txt\<close>, the directory \<open>locked\<close> whose listing is denied, and the directory
  \<open>zeta\<close> with the file \<open>z.md\<close>. The tree pass writes the \<open>[ACCESS DENIED]\<close> line
  and goes on to \<open>zeta\<close>. The content pass stops at \<open>locked\<close>: the exception of
  \<open>readdirSync\<close> leaves \<open>processDirectory\<close>, \<open>zeta/z.md\<close> is never read, the
  closing markers are not written, and the main block prints the error instead of the
  summary.
\<close>

theorem denied_directory_aborts_content_pass:
  \<open>main demoHost
     (Dir [(str ''a.txt'', File (plain (ascii ''hi''))),
           (str ''locked'', Denied (str ''EACCES: permission denied, scandir'')),
           (str ''zeta'', Dir [(str ''z.md'', File (plain (ascii ''zz'')))])])
   = ([Error (str ''Error: EACCES: permission denied, scandir'')],
      str ''<project_overview>\<newline><generated_at>proj</generated_at>\<newline>\<newline><directory_structure>\<newline>proj/\<newline>'' @
      bar @ str ''locked/\<newline>'' @ bar @ str ''[ACCESS DENIED]\<newline>'' @
      bar @ str ''zeta/\<newline>'' @ bar @ lastBranch @ str ''z.md\<newline>'' @
      lastBranch @ str ''a.txt\<newline></directory_structure>\<newline>\<newline><file_contents>\<newline>'' @
      str ''\<newline><file path="a.txt">\<newline>hi\<newline></file>\<newline>'')\<close>
  by (simp add: eval_defs)

text \<open>
  C2 (the code at the input where it departs from the claim): the walk root is named
  \<open>build\<close>, a member of the excluded directories. The tree pass writes nothing for
  it, but the content pass does not test the name of the root: the file \<open>a.txt\<close>
  beneath it appears in the content section and is counted.
\<close>

theorem excluded_root_content_pass:
  \<open>processDirectory demoHost (str ''/work/build'')
     (Dir [(str ''a.txt'', File (plain (ascii ''hi'')))])
   = Inr \<lparr>out = str ''<project_overview>\<newline><generated_at>build</generated_at>\<newline>\<newline>'' @
                 str ''<directory_structure>\<newline></directory_structure>\<newline>\<newline><file_contents>\<newline>'' @
                 str ''\<newline><file path="a.txt">\<newline>hi\<newline></file>\<newline>'' @
                 str ''</file_contents>\<newline></project_overview>'',
           totalLines = 1, totalTokens = 1, fileCount = 1\<rparr>\<close>
  by (simp add: eval_defs)

text \<open>
  C4 (the code at the input where it departs from the claim): the program is started in
  \<open>/proj\<close> with the positional argument \<open>frontend\<close>. The main block never reads the
  arguments: the walk is rooted at the current working directory, and \<open>a.txt\<close>, which
  lies outside \<open>frontend\<close>, is listed and written.
\<close>

theorem positional_argument_ignored:
  \<open>main (demoHost\<lparr>args := [str ''frontend'']\<rparr>)
     (Dir [(str ''a.txt'', File (plain (ascii ''hi''))),
           (str ''frontend'', Dir [(str ''b.css'', File (plain (ascii ''p{}'')))])])
   = ([Log (str ''\<newline>Project Context Generation Complete''),
       Log (str ''Output file: project-context.txt''),
       Log (str ''Files processed: 2''),
       Log (str ''Total lines: 2''),
       Log (str ''Estimated tokens: 4'')],
      str ''<project_overview>\<newline><generated_at>proj</generated_at>\<newline>\<newline><directory_structure>\<newline>proj/\<newline>'' @
      bar @ str ''frontend/\<newline>'' @ bar @ lastBranch @ str ''b.css\<newline>'' @
      lastBranch @ str ''a.txt\<newline></directory_structure>\<newline>\<newline><file_contents>\<newline>'' @
      str ''\<newline><file path="a.txt">\<newline>hi\<newline></file>\<newline>'' @
      str ''\<newline><file path="frontend/b.css">\<newline>p{}\<newline></file>\<newline>'' @
      str ''</file_contents>\<newline></project_overview>'')\<close>
  by (simp add: eval_defs)

section \<open>Properties of the token estimate\<close>

lemma runs_from_dropWhile: "runs_from False (dropWhile is_space cs) = runs_from True cs"
  by (induction cs) auto

lemma length_split_from: "length (split_from seg cs) = runs_from False cs + 1"
  by (induction seg cs rule: split_from.induct) (auto simp: runs_from_dropWhile)

lemma length_filter_special:
  "length (filter (\<lambda>c. \<not> is_alnum_or_space c) cs) = spec_specialChars cs"
  by (induction cs) (auto simp: is_alnum_or_space_def)

text \<open>
  C7: for every text, \<open>estimateTokens\<close> is words + specialChars + floor(words / 4),
  with the words counted by splitting at the runs of white space and the special
  characters being those that are no ASCII letter, digit or white space; and
  \<open>estimateTokens("a b c")\<close> is 3.
\<close>

theorem estimateTokens_formula:
  "estimateTokens text = spec_words text + spec_specialChars text + spec_words text div 4
   \<and> estimateTokens (str ''a b c'') = 3"
proof
  show "estimateTokens text = spec_words text + spec_specialChars text + spec_words text div 4"
    by (simp add: estimateTokens_def split_ws_def length_split_from length_filter_special
        spec_words_def)
  show "estimateTokens (str ''a b c'') = 3"
    by (simp add: estimateTokens_def split_ws_def str_def is_space_def is_alnum_or_space_def)
qed

end
